theory Spec2Isabelle
  imports Complex_Main
begin

section \<open>Strings, errors and the syllable estimator\<close>

text \<open>
  Python strings are modelled as \<open>string\<close>; one \<open>char\<close> stands for one code point
  below 256. Python integers are \<open>int\<close>, counts and lengths are \<open>nat\<close>. Python floats
  are \<open>real\<close> numbers: where the code evaluates an expression of quotients, products and
  sums, the model takes its exact value. The one place where the code's value is not the
  rounding of a single expression, the square of \<open>numpy.std\<close>, rounds the square root and
  the square to binary64 explicitly. An exception is a value \<open>Inl e\<close> of the result type
  \<open>error + 'a\<close>; a division by zero raises.
\<close>

datatype error = ValueError string | IndexError | ZeroDivisionError

definition truediv :: "real \<Rightarrow> real \<Rightarrow> error + real" where
  \<comment> \<open>the operator \<open>/\<close> on numbers\<close>
  "truediv a b = (if b = 0 then Inl ZeroDivisionError else Inr (a / b))"

definition lower_char :: "char \<Rightarrow> char" where
  \<comment> \<open>\<open>str.lower\<close> on one code point below 256: A-Z, and the Latin-1 capitals except
      the multiplication sign, move up by 32.\<close>
  "lower_char c =
     (let n = (of_char c :: nat)
      in if (65 \<le> n \<and> n \<le> 90) \<or> (192 \<le> n \<and> n \<le> 222 \<and> n \<noteq> 215)
         then char_of (n + 32) else c)"

definition lower :: "string \<Rightarrow> string" where
  "lower s = map lower_char s"

definition endswith :: "string \<Rightarrow> string \<Rightarrow> bool" where
  "endswith s suf =
     (length suf \<le> length s \<and> drop (length s - length suf) s = suf)"

definition vowels :: string where
  "vowels = ''aeiouy''"

definition syllable_step :: "string \<Rightarrow> nat \<Rightarrow> int \<Rightarrow> int" where
  \<comment> \<open>the body of the loop over \<open>index\<close>, lines 17-18\<close>
  "syllable_step word index count =
     (if word ! index \<in> set vowels \<and> word ! (index - 1) \<notin> set vowels
      then count + 1 else count)"

definition syllable_count :: "string \<Rightarrow> error + int" where
  \<comment> \<open>lines 10-23; \<open>word[0]\<close> raises on the empty string\<close>
  "syllable_count word0 =
     (let word = lower word0;
          count = 0
      in if word = [] then Inl IndexError
         else
           let count = (if word ! 0 \<in> set vowels then count + 1 else count);
               count = fold (syllable_step word) [1..<length word] count;
               count = (if endswith word ''e'' then count - 1 else count);
               count = (if count = 0 then count + 1 else count)
           in Inr count)"

subsection \<open>The estimator as the specification describes it\<close>

text \<open>
  Vowel-group starts, counted structurally: \<open>prev\<close> tells whether the preceding
  character was a vowel (\<open>False\<close> before the first character).
\<close>

fun group_starts :: "bool \<Rightarrow> string \<Rightarrow> nat" where
  "group_starts prev [] = 0"
| "group_starts prev (c # cs) =
     (if c \<in> set vowels \<and> \<not> prev then 1 else 0) + group_starts (c \<in> set vowels) cs"

definition spec_syllable_count :: "string \<Rightarrow> int" where
  "spec_syllable_count word0 =
     (let word = lower word0
      in max 1 (int (group_starts False word)
                - (if word \<noteq> [] \<and> last word = CHR ''e'' then 1 else 0)))"

section \<open>The linguistic pipeline's output\<close>

text \<open>
  The pipeline (spaCy) is an external collaborator. The analyzer reads from a token its
  surface text, its part-of-speech tag and three flags, and from a document its text, its
  tokens and its sentences (each a sequence of tokens). The pipeline itself is a parameter
  \<open>nlp\<close> of the analyzer.
\<close>

record token =
  token_text :: string  \<comment> \<open>\<open>token.text\<close>\<close>
  pos_tag :: string  \<comment> \<open>\<open>token.pos_\<close>\<close>
  is_alpha :: bool
  is_punct :: bool
  is_space :: bool

record doc =
  doc_text :: string
  doc_tokens :: "token list"
  sents :: "token list list"

definition isspace :: "char \<Rightarrow> bool" where
  \<comment> \<open>the code points below 256 that \<open>str.strip\<close> removes\<close>
  "isspace c =
     (let n = (of_char c :: nat)
      in (9 \<le> n \<and> n \<le> 13) \<or> (28 \<le> n \<and> n \<le> 32) \<or> n = 133 \<or> n = 160)"

definition strip :: "string \<Rightarrow> string" where
  "strip s = rev (dropWhile isspace (rev (dropWhile isspace s)))"

section \<open>Library functions the analyzer calls\<close>

text \<open>
  \<open>collections.Counter\<close> over a sequence: a dictionary from each element to its tally,
  the keys in the order of their first occurrence. Dictionaries whose order is observed
  are association lists.
\<close>

fun counter_incr :: "'a \<Rightarrow> ('a \<times> nat) list \<Rightarrow> ('a \<times> nat) list" where
  "counter_incr x [] = [(x, 1)]"
| "counter_incr x ((k, c) # kvs) =
     (if k = x then (k, c + 1) # kvs else (k, c) # counter_incr x kvs)"

definition Counter :: "'a list \<Rightarrow> ('a \<times> nat) list" where
  "Counter xs = fold counter_incr xs []"

text \<open>
  Rounding to binary64: to the nearest number with a significand of 53 bits, ties to the
  even significand. The exponent range is not bounded (no overflow, no subnormal numbers).
\<close>

definition round_half_even :: "real \<Rightarrow> int" where
  "round_half_even x =
     (let f = \<lfloor>x\<rfloor>; d = x - of_int f
      in if d < 1 / 2 then f else if 1 / 2 < d then f + 1 else if even f then f else f + 1)"

definition pow2 :: "int \<Rightarrow> real" where
  "pow2 k = (if 0 \<le> k then 2 ^ nat k else 1 / 2 ^ nat (- k))"

definition float64 :: "real \<Rightarrow> real" where
  "float64 x =
     (if x = 0 then 0
      else let e = \<lfloor>log 2 \<bar>x\<bar>\<rfloor>
           in sgn x * real_of_int (round_half_even (\<bar>x\<bar> * pow2 (52 - e))) * pow2 (e - 52))"

text \<open>
  \<open>numpy.mean\<close> and \<open>numpy.std\<close> of a non-empty sequence; the analyzer guards both calls
  against the empty one. \<open>numpy.std\<close> is the square root, a binary64 number, of the mean
  of the squared absolute deviations from the mean.
\<close>

definition np_mean :: "real list \<Rightarrow> real" where
  "np_mean xs = sum_list xs / real (length xs)"

definition np_std :: "real list \<Rightarrow> real" where
  "np_std xs = float64 (sqrt (np_mean (map (\<lambda>x. \<bar>x - np_mean xs\<bar> ^ 2) xs)))"

section \<open>The style analyzer\<close>

record analysis =
  avg_sentence_length :: real
  sentence_length_variance :: real
  type_token_ratio :: real
  pos_distribution :: "(string \<times> real) list"
  punctuation_distribution :: "(string \<times> real) list"
  flesch_reading_ease :: real

fun total_syllable_count :: "string list \<Rightarrow> error + int" where
  \<comment> \<open>line 53: the sum of \<open>syllable_count\<close> over the words; the first failing call
      raises\<close>
  "total_syllable_count [] = Inr 0"
| "total_syllable_count (word # words) =
     (case syllable_count word of
        Inl e \<Rightarrow> Inl e
      | Inr n \<Rightarrow>
          (case total_syllable_count words of
             Inl e \<Rightarrow> Inl e
           | Inr m \<Rightarrow> Inr (n + m)))"

definition words_of :: "doc \<Rightarrow> string list" where
  \<comment> \<open>line 45\<close>
  "words_of d = [token_text t. t \<leftarrow> doc_tokens d, is_alpha t]"

definition sentence_lengths_of :: "token list list \<Rightarrow> nat list" where
  \<comment> \<open>line 56\<close>
  "sentence_lengths_of sentences = [length [t \<leftarrow> sent. is_alpha t]. sent \<leftarrow> sentences]"

fun fractions :: "('a \<times> nat) list \<Rightarrow> nat \<Rightarrow> error + ('a \<times> real) list" where
  \<comment> \<open>the dictionary comprehensions of lines 65 and 70: each tally divided by the
      total, in the order of the keys\<close>
  "fractions [] total_count = Inr []"
| "fractions ((k, c) # kvs) total_count =
     (case truediv (real c) (real total_count) of
        Inl e \<Rightarrow> Inl e
      | Inr q \<Rightarrow>
          (case fractions kvs total_count of
             Inl e \<Rightarrow> Inl e
           | Inr rest \<Rightarrow> Inr ((k, q) # rest)))"

definition ttr_of :: "string list \<Rightarrow> error + real" where
  \<comment> \<open>line 61\<close>
  "ttr_of words =
     (let total_words = length words
      in if total_words > 0 then truediv (real (card (set words))) (real total_words)
         else Inr 0)"

definition pos_distribution_of :: "doc \<Rightarrow> nat \<Rightarrow> error + (string \<times> real) list" where
  \<comment> \<open>lines 64-65\<close>
  "pos_distribution_of d total_words =
     (let pos_counts = Counter [pos_tag t. t \<leftarrow> doc_tokens d, \<not> is_punct t \<and> \<not> is_space t]
      in if total_words > 0 then fractions pos_counts total_words else Inr [])"

definition punct_distribution_of :: "doc \<Rightarrow> error + (string \<times> real) list" where
  \<comment> \<open>lines 68-70\<close>
  "punct_distribution_of d =
     (let punct_counts = Counter [token_text t. t \<leftarrow> doc_tokens d, is_punct t];
          total_puncts = sum_list (map snd punct_counts)
      in if total_puncts > 0 then fractions punct_counts total_puncts else Inr [])"

definition flesch_ease_of :: "nat \<Rightarrow> nat \<Rightarrow> int \<Rightarrow> error + real" where
  \<comment> \<open>lines 74-76\<close>
  "flesch_ease_of total_sentences total_words total_syllables =
     (if total_sentences > 0 \<and> total_words > 0
      then case truediv (real total_words) (real total_sentences) of
             Inl e \<Rightarrow> Inl e
           | Inr words_per_sentence \<Rightarrow>
               (case truediv (real_of_int total_syllables) (real total_words) of
                  Inl e \<Rightarrow> Inl e
                | Inr syllables_per_word \<Rightarrow>
                    Inr (206.835 - 1.015 * words_per_sentence - 84.6 * syllables_per_word))
      else Inr 0)"

definition analyze :: "(string \<Rightarrow> doc) \<Rightarrow> string \<Rightarrow> error + analysis" where
  \<comment> \<open>lines 37-85; \<open>not doc\<close> is true of a document without tokens\<close>
  "analyze nlp text =
     (let d = nlp text
      in if doc_tokens d = [] \<or> length (strip (doc_text d)) = 0
         then Inl (ValueError ''Input text is empty or contains only whitespace.'')
         else
           let sentences = sents d;
               words = words_of d
           in if sentences = [] \<or> words = []
              then Inl (ValueError ''Could not extract sentences or words from the text.'')
              else
                let total_words = length words;
                    total_sentences = length sentences
                in case total_syllable_count words of
                     Inl e \<Rightarrow> Inl e
                   | Inr total_syllables \<Rightarrow>
                       let sentence_lengths = map real (sentence_lengths_of sentences);
                           avg_sentence_length =
                             (if sentence_lengths \<noteq> [] then np_mean sentence_lengths else 0);
                           std_sentence_length =
                             (if sentence_lengths \<noteq> [] then np_std sentence_lengths else 0)
                       in case ttr_of words of
                            Inl e \<Rightarrow> Inl e
                          | Inr ttr \<Rightarrow>
                       case pos_distribution_of d total_words of
                            Inl e \<Rightarrow> Inl e
                          | Inr pos_dist \<Rightarrow>
                       case punct_distribution_of d of
                            Inl e \<Rightarrow> Inl e
                          | Inr punct_dist \<Rightarrow>
                       case flesch_ease_of total_sentences total_words total_syllables of
                            Inl e \<Rightarrow> Inl e
                          | Inr flesch_ease \<Rightarrow>
                       Inr \<lparr>avg_sentence_length = avg_sentence_length,
                            sentence_length_variance = float64 (std_sentence_length ^ 2),
                            type_token_ratio = ttr,
                            pos_distribution = pos_dist,
                            punctuation_distribution = punct_dist,
                            flesch_reading_ease = flesch_ease\<rparr>)"

section \<open>The style guide formatter\<close>

text \<open>
  Python's format specifications \<open>.1f\<close>, \<open>.2f\<close>, \<open>.0f\<close> and \<open>.1%\<close> on the idealised
  reals: the absolute value is scaled by the power of ten, rounded to the nearest integer
  with ties to the even one, and written in decimal with the fraction digits padded by
  zeros; a negative argument gets a minus sign; \<open>%\<close> multiplies by 100 first and appends
  the percent sign.
\<close>

definition nl :: string where
  \<comment> \<open>the line feed the source writes as a backslash followed by n\<close>
  "nl = [CHR 0x0A]"

definition digit_char :: "nat \<Rightarrow> char" where
  "digit_char n = ''0123456789'' ! n"

fun str_nat :: "nat \<Rightarrow> string" where
  \<comment> \<open>the decimal digits of a natural number\<close>
  "str_nat n = (if n < 10 then [digit_char n] else str_nat (n div 10) @ [digit_char (n mod 10)])"

declare str_nat.simps [simp del]

definition zfill :: "nat \<Rightarrow> string \<Rightarrow> string" where
  "zfill width s = replicate (width - length s) CHR ''0'' @ s"

definition format_f :: "nat \<Rightarrow> real \<Rightarrow> string" where
  "format_f prec x =
     (let n = nat (round_half_even (\<bar>x\<bar> * 10 ^ prec))
      in (if x < 0 then ''-'' else '''')
         @ str_nat (n div 10 ^ prec)
         @ (if prec = 0 then '''' else ''.'' @ zfill prec (str_nat (n mod 10 ^ prec))))"

definition format_percent :: "nat \<Rightarrow> real \<Rightarrow> string" where
  "format_percent prec x = format_f prec (x * 100) @ ''%''"

text \<open>
  \<open>sorted(xs, key=key, reverse=True)\<close>: the sequence is reversed, sorted by ascending key
  with a stable sort, and reversed again.
\<close>

definition sorted_reverse :: "('a \<Rightarrow> real) \<Rightarrow> 'a list \<Rightarrow> 'a list" where
  "sorted_reverse key xs = rev (sort_key key (rev xs))"

definition title_line :: "string \<Rightarrow> string" where
  \<comment> \<open>line 89\<close>
  "title_line author_name = ''## Stylistic Analysis of '' @ author_name @ nl @ nl"

definition sentence_structure_line :: "analysis \<Rightarrow> string" where
  \<comment> \<open>line 90\<close>
  "sentence_structure_line analysis =
     ''- **Sentence Structure**: Emulate sentences with an average length of ''
     @ format_f 1 (avg_sentence_length analysis)
     @ '' words. The sentence length should be relatively consistent, with a variance of ''
     @ format_f 1 (sentence_length_variance analysis) @ ''.'' @ nl"

definition vocabulary_line :: "analysis \<Rightarrow> string" where
  \<comment> \<open>line 91\<close>
  "vocabulary_line analysis =
     ''- **Vocabulary**: Use a vocabulary of moderate richness (Type-Token Ratio of around ''
     @ format_f 2 (type_token_ratio analysis)
     @ ''). Avoid overly obscure or complex words.'' @ nl"

definition grammar_heading :: string where
  \<comment> \<open>line 92\<close>
  "grammar_heading =
     ''- **Grammar (Part-of-Speech)**: The writing heavily features the following parts of speech. Replicate this distribution:''
     @ nl"

definition pos_line :: "string \<Rightarrow> real \<Rightarrow> string" where
  \<comment> \<open>line 96\<close>
  "pos_line pos percent = ''  - '' @ pos @ '': ~'' @ format_percent 1 percent @ nl"

definition punctuation_heading :: string where
  \<comment> \<open>line 98\<close>
  "punctuation_heading =
     ''- **Punctuation**: Punctuation usage is a key part of the style. Prioritize the following marks:''
     @ nl"

definition punct_line :: "string \<Rightarrow> real \<Rightarrow> string" where
  \<comment> \<open>line 101\<close>
  "punct_line p percent =
     ''  - The '' @ [CHR 0x27] @ p @ [CHR 0x27] @ '' character comprises ~''
     @ format_percent 1 percent @ '' of all punctuation.'' @ nl"

definition clarity_line :: "analysis \<Rightarrow> string" where
  \<comment> \<open>line 103\<close>
  "clarity_line analysis =
     ''- **Clarity**: The overall style is clear and direct, with a Flesch Reading Ease score around ''
     @ format_f 0 (flesch_reading_ease analysis)
     @ ''. Aim for this level of readability.'' @ nl"

definition format_analysis_for_prompt :: "analysis \<Rightarrow> string \<Rightarrow> string" where
  \<comment> \<open>lines 87-104; each \<open>prompt +=\<close> appends to the text built so far\<close>
  "format_analysis_for_prompt analysis author_name =
     (let prompt = title_line author_name;
          prompt = prompt @ sentence_structure_line analysis;
          prompt = prompt @ vocabulary_line analysis;
          prompt = prompt @ grammar_heading;
          top_pos = take 5 (sorted_reverse snd (pos_distribution analysis));
          prompt = fold (\<lambda>(pos, percent) prompt. prompt @ pos_line pos percent) top_pos prompt;
          prompt = prompt @ punctuation_heading;
          top_puncts = take 3 (sorted_reverse snd (punctuation_distribution analysis));
          prompt = fold (\<lambda>(p, percent) prompt. prompt @ punct_line p percent) top_puncts prompt;
          prompt = prompt @ clarity_line analysis
      in prompt)"

section \<open>The statistics and the ranking as the specification describes them\<close>

definition arithmetic_mean :: "real list \<Rightarrow> real" where
  "arithmetic_mean xs = (\<Sum>x\<leftarrow>xs. x) / real (length xs)"

definition population_variance :: "real list \<Rightarrow> real" where
  \<comment> \<open>the mean of the squared deviations from the mean: the divisor is N\<close>
  "population_variance xs =
     (\<Sum>x\<leftarrow>xs. (x - arithmetic_mean xs) ^ 2) / real (length xs)"


text \<open>
  \<open>ys\<close> lists \<open>items\<close> in descending order of fraction, entries of equal fraction in the
  order they have in \<open>items\<close>.
\<close>

definition stable_descending :: "(string \<times> real) list \<Rightarrow> (string \<times> real) list \<Rightarrow> bool" where
  "stable_descending items ys \<longleftrightarrow>
     sorted_wrt (\<lambda>x y. snd y \<le> snd x) ys \<and>
     (\<forall>v \<in> set (map snd (items @ ys)). [i \<leftarrow> ys. snd i = v] = [i \<leftarrow> items. snd i = v])"

section \<open>Sample pipeline outputs\<close>

text \<open>
  Documents as the pipeline tokenizes and tags six short texts, and the pipeline that
  returns them; \<open>dogs_analysis\<close> and \<open>go_analysis\<close> are the profiles of the first two.
\<close>

definition word_token :: "string \<Rightarrow> string \<Rightarrow> token" where
  "word_token s tag =
     \<lparr>token_text = s, pos_tag = tag, is_alpha = True, is_punct = False, is_space = False\<rparr>"

definition punct_token :: "string \<Rightarrow> token" where
  "punct_token s =
     \<lparr>token_text = s, pos_tag = ''PUNCT'', is_alpha = False, is_punct = True,
      is_space = False\<rparr>"

definition num_token :: "string \<Rightarrow> token" where
  "num_token s =
     \<lparr>token_text = s, pos_tag = ''NUM'', is_alpha = False, is_punct = False,
      is_space = False\<rparr>"

definition space_token :: "string \<Rightarrow> token" where
  "space_token s =
     \<lparr>token_text = s, pos_tag = ''SPACE'', is_alpha = False, is_punct = False,
      is_space = True\<rparr>"

definition dogs_sent1 :: "token list" where
  "dogs_sent1 = [word_token ''Dogs'' ''NOUN'', word_token ''run'' ''VERB'', punct_token ''.'']"

definition dogs_sent2 :: "token list" where
  "dogs_sent2 =
     [word_token ''Cats'' ''NOUN'', word_token ''run'' ''VERB'', word_token ''fast'' ''ADV'',
      punct_token ''!'']"

definition dogs_doc :: doc where
  "dogs_doc =
     \<lparr>doc_text = ''Dogs run. Cats run fast!'',
      doc_tokens = dogs_sent1 @ dogs_sent2,
      sents = [dogs_sent1, dogs_sent2]\<rparr>"

definition pick_sent :: "token list" where
  "pick_sent =
     [word_token ''Pick'' ''VERB'', num_token ''1'', punct_token '','', num_token ''2'',
      punct_token '','', num_token ''3'', word_token ''or'' ''CCONJ'', num_token ''4'',
      punct_token ''.'']"

definition pick_doc :: doc where
  "pick_doc =
     \<lparr>doc_text = ''Pick 1, 2, 3 or 4.'', doc_tokens = pick_sent, sents = [pick_sent]\<rparr>"

definition the_sent :: "token list" where
  "the_sent =
     [word_token ''The'' ''DET'', word_token ''end'' ''NOUN'', word_token ''of'' ''ADP'',
      word_token ''the'' ''DET'', word_token ''road'' ''NOUN'']"

definition the_doc :: doc where
  "the_doc =
     \<lparr>doc_text = ''The end of the road'', doc_tokens = the_sent, sents = [the_sent]\<rparr>"

definition marks_sent1 :: "token list" where
  "marks_sent1 = [punct_token ''!'', punct_token ''!'', punct_token ''!'', punct_token ''...'']"

definition marks_sent2 :: "token list" where
  "marks_sent2 = [punct_token ''?'', punct_token ''?'', punct_token ''?'']"

definition marks_doc :: doc where
  "marks_doc =
     \<lparr>doc_text = ''!!! ... ???'',
      doc_tokens = marks_sent1 @ marks_sent2,
      sents = [marks_sent1, marks_sent2]\<rparr>"

definition blank_sent :: "token list" where
  "blank_sent = [space_token ''   '']"

definition blank_doc :: doc where
  "blank_doc = \<lparr>doc_text = ''   '', doc_tokens = blank_sent, sents = [blank_sent]\<rparr>"

definition go_sent1 :: "token list" where
  "go_sent1 = [word_token ''Go'' ''VERB'', punct_token ''.'']"

definition go_sent2 :: "token list" where
  "go_sent2 = [word_token ''Go'' ''VERB'', num_token ''2'', punct_token ''.'']"

definition go_sent3 :: "token list" where
  "go_sent3 = [word_token ''Wait'' ''VERB'', punct_token ''.'']"

definition go_sent4 :: "token list" where
  "go_sent4 =
     [word_token ''Run'' ''VERB'', num_token ''2'', word_token ''and'' ''CCONJ'',
      word_token ''go'' ''VERB'', punct_token ''.'']"

definition go_doc :: doc where
  "go_doc =
     \<lparr>doc_text = ''Go. Go 2. Wait. Run 2 and go.'',
      doc_tokens = go_sent1 @ go_sent2 @ go_sent3 @ go_sent4,
      sents = [go_sent1, go_sent2, go_sent3, go_sent4]\<rparr>"

definition sample_nlp :: "string \<Rightarrow> doc" where
  "sample_nlp text =
     (if text = ''Dogs run. Cats run fast!'' then dogs_doc
      else if text = ''Go. Go 2. Wait. Run 2 and go.'' then go_doc
      else if text = ''Pick 1, 2, 3 or 4.'' then pick_doc
      else if text = ''The end of the road'' then the_doc
      else if text = ''!!! ... ???'' then marks_doc
      else if text = ''   '' then blank_doc
      else \<lparr>doc_text = text, doc_tokens = [], sents = []\<rparr>)"

definition dogs_analysis :: analysis where
  "dogs_analysis =
     \<lparr>avg_sentence_length = 2.5,
      sentence_length_variance = 0.25,
      type_token_ratio = 0.8,
      pos_distribution = [(''NOUN'', 0.4), (''VERB'', 0.4), (''ADV'', 0.2)],
      punctuation_distribution = [(''.'', 0.5), (''!'', 0.5)],
      flesch_reading_ease = 119.6975\<rparr>"

definition go_analysis :: analysis where
  "go_analysis =
     \<lparr>avg_sentence_length = 1.5,
      sentence_length_variance = 6755399441055743 / 9007199254740992,
      type_token_ratio = 5 / 6,
      pos_distribution = [(''VERB'', 5 / 6), (''NUM'', 1 / 3), (''CCONJ'', 1 / 6)],
      punctuation_distribution = [(''.'', 1)],
      flesch_reading_ease = 120.7125\<rparr>"

section \<open>Properties of the syllable estimator\<close>

lemma fold_syllable_step_Cons:
  "fold (syllable_step (a # c # cs)) [1..<length (a # c # cs)] k
   = fold (syllable_step (c # cs)) [1..<length (c # cs)]
       (syllable_step (a # c # cs) 1 k)"
proof -
  have upt: "[1..<length (a # c # cs)] = 1 # map Suc [1..<length (c # cs)]"
    by (simp add: upt_conv_Cons map_Suc_upt del: upt_Suc)
  have step: "\<And>i k. i \<in> set [1..<length (c # cs)] \<Longrightarrow>
      syllable_step (a # c # cs) (Suc i) k = syllable_step (c # cs) i k"
    by (auto simp: syllable_step_def nth_Cons split: nat.splits)
  have "fold (syllable_step (a # c # cs)) (map Suc [1..<length (c # cs)]) k'
        = fold (syllable_step (c # cs)) [1..<length (c # cs)] k'" for k'
    unfolding fold_map
    by (rule fold_cong) (use step in \<open>auto simp: fun_eq_iff\<close>)
  then show ?thesis
    unfolding upt by simp
qed

lemma fold_syllable_step_groups:
  "fold (syllable_step (c # cs)) [1..<length (c # cs)] k
   = k + int (group_starts (c \<in> set vowels) cs)"
proof (induction cs arbitrary: c k)
  case Nil
  then show ?case by simp
next
  case (Cons d ds)
  have first: "syllable_step (c # d # ds) 1 k
        = k + (if d \<in> set vowels \<and> c \<notin> set vowels then 1 else 0)"
    by (simp add: syllable_step_def)
  have "fold (syllable_step (c # d # ds)) [1..<length (c # d # ds)] k
        = syllable_step (c # d # ds) 1 k + int (group_starts (d \<in> set vowels) ds)"
    unfolding fold_syllable_step_Cons by (rule Cons.IH)
  also have "\<dots> = k + int (group_starts (c \<in> set vowels) (d # ds))"
    unfolding first by simp
  finally show ?case .
qed

lemma group_starts_pos:
  "\<exists>c \<in> set w. c \<in> set vowels \<Longrightarrow> 1 \<le> group_starts False w"
proof (induction w)
  case Nil
  then show ?case by simp
next
  case (Cons c cs)
  then show ?case by (cases "c \<in> set vowels") auto
qed

lemma endswith_e: "endswith w ''e'' \<longleftrightarrow> w \<noteq> [] \<and> last w = CHR ''e''"
proof (cases w rule: rev_cases)
  case Nil
  then show ?thesis by (simp add: endswith_def)
next
  case (snoc ys y)
  then show ?thesis by (auto simp: endswith_def)
qed

lemma syllable_count_groups:
  assumes "word \<noteq> []"
  shows "syllable_count word =
    Inr (let c = int (group_starts False (lower word))
                 - (if endswith (lower word) ''e'' then 1 else 0)
         in if c = 0 then 1 else c)"
proof -
  obtain c cs where w: "lower word = c # cs"
    using assms by (cases "lower word") (auto simp: lower_def)
  show ?thesis
    unfolding syllable_count_def Let_def w fold_syllable_step_groups
    by simp
qed

lemma groups_minus_e_nonneg:
  "0 \<le> int (group_starts False w) - (if endswith w ''e'' then 1 else 0)"
proof (cases "endswith w ''e''")
  case True
  then have "w \<noteq> []" "last w = CHR ''e''" by (simp_all add: endswith_e)
  then have "\<exists>c \<in> set w. c \<in> set vowels"
    using last_in_set [of w] by (auto simp: vowels_def)
  then show ?thesis using group_starts_pos [of w] True by simp
next
  case False
  then show ?thesis by simp
qed

text \<open>
  C2. For every non-empty word, \<open>syllable_count\<close> returns an integer that is at least 1,
  and that integer is the number of vowel-group starts of the lower-cased word (vowels
  a, e, i, o, u, y; a vowel counts when the character before it is not a vowel, the first
  character counts when it is a vowel), minus 1 when the word ends in e, clamped to a
  minimum of 1.
\<close>

theorem syllable_count_spec:
  "word \<noteq> [] \<Longrightarrow>
   (\<exists>n. syllable_count word = Inr n \<and> 1 \<le> n \<and> n = spec_syllable_count word)"
proof -
  assume ne: "word \<noteq> []"
  let ?c = "int (group_starts False (lower word))
            - (if endswith (lower word) ''e'' then 1 else 0)"
  have nonneg: "0 \<le> ?c" by (rule groups_minus_e_nonneg)
  have res: "syllable_count word = Inr (if ?c = 0 then 1 else ?c)"
    using syllable_count_groups [OF ne] by (simp add: Let_def)
  have clamp: "(if ?c = 0 then 1 else ?c) = max 1 ?c"
    using nonneg by (simp add: max_def)
  have spec: "spec_syllable_count word = max 1 ?c"
    by (simp add: spec_syllable_count_def Let_def endswith_e)
  show ?thesis
    unfolding res clamp spec by simp
qed

theorem syllable_count_spec_witness:
  "''make'' \<noteq> [] \<and> syllable_count ''make'' = Inr 1 \<and> spec_syllable_count ''make'' = 1"
  using syllable_count_spec [of "''make''"]
  by (simp add: spec_syllable_count_def lower_def lower_char_def vowels_def)

section \<open>Facts about the library functions\<close>

lemma sum_counter_incr: "sum_list (map snd (counter_incr x kvs)) = Suc (sum_list (map snd kvs))"
  by (induction x kvs rule: counter_incr.induct) auto

lemma sum_fold_counter_incr:
  "sum_list (map snd (fold counter_incr xs acc)) = length xs + sum_list (map snd acc)"
  by (induction xs arbitrary: acc) (auto simp: sum_counter_incr)

lemma sum_Counter: "sum_list (map snd (Counter xs)) = length xs"
  by (simp add: Counter_def sum_fold_counter_incr)

lemma keys_counter_incr: "fst ` set (counter_incr x kvs) = insert x (fst ` set kvs)"
  by (induction x kvs rule: counter_incr.induct) auto

lemma distinct_counter_incr: "distinct (map fst kvs) \<Longrightarrow> distinct (map fst (counter_incr x kvs))"
  by (induction x kvs rule: counter_incr.induct) (auto simp: keys_counter_incr)

lemma distinct_fold_counter_incr:
  "distinct (map fst acc) \<Longrightarrow> distinct (map fst (fold counter_incr xs acc))"
  by (induction xs arbitrary: acc) (auto simp: distinct_counter_incr)

lemma distinct_Counter: "distinct (map fst (Counter xs))"
  by (simp add: Counter_def distinct_fold_counter_incr)

lemma map_of_counter_incr:
  "map_of (counter_incr x kvs) =
     (map_of kvs)(x \<mapsto> (case map_of kvs x of None \<Rightarrow> 1 | Some c \<Rightarrow> c + 1))"
  by (induction x kvs rule: counter_incr.induct) (auto simp: fun_eq_iff)

lemma map_of_fold_counter_incr:
  "map_of (fold counter_incr xs acc) k =
     (if k \<in> set xs \<or> k \<in> dom (map_of acc)
      then Some ((case map_of acc k of None \<Rightarrow> 0 | Some c \<Rightarrow> c) + count_list xs k)
      else None)"
proof (induction xs arbitrary: acc)
  case Nil
  then show ?case by (auto split: option.splits)
next
  case (Cons x xs)
  show ?case
    by (simp add: Cons.IH map_of_counter_incr split: option.splits) (auto simp: dom_def)
qed

lemma map_of_Counter:
  "map_of (Counter xs) k = (if k \<in> set xs then Some (count_list xs k) else None)"
  by (simp add: Counter_def map_of_fold_counter_incr)

lemma Counter_Nil_iff: "Counter xs = [] \<longleftrightarrow> xs = []"
proof
  assume "Counter xs = []"
  then have "sum_list (map snd (Counter xs)) = 0" by simp
  then show "xs = []" by (simp add: sum_Counter)
next
  assume "xs = []"
  then show "Counter xs = []" by (simp add: Counter_def)
qed

lemma sum_list_fractions:
  "sum_list (map snd [(p, real c / T). (p, c) \<leftarrow> kvs]) = real (sum_list (map snd kvs)) / T"
  by (induction kvs) (auto simp: add_divide_distrib)

lemma keys_fractions: "map fst [(p, real c / T). (p, c) \<leftarrow> kvs] = map fst kvs"
  by (induction kvs) auto

lemma map_of_fractions:
  "map_of [(p, real c / T). (p, c) \<leftarrow> kvs] k = map_option (\<lambda>c. real c / T) (map_of kvs k)"
  by (induction kvs) auto

lemma comprehension_map_filter:
  "concat (map (\<lambda>t. if P t then [f t] else []) xs) = map f (filter P xs)"
  by (induction xs) auto

subsection \<open>Rounding to binary64 and the statistics\<close>

lemma round_half_even_near: "\<bar>real_of_int (round_half_even y) - y\<bar> \<le> 1 / 2"
  unfolding round_half_even_def Let_def by (auto; linarith)

lemma round_half_even_nonneg: "0 \<le> y \<Longrightarrow> 0 \<le> round_half_even y"
  unfolding round_half_even_def Let_def by (auto; linarith)

lemma pow2_powr: "pow2 k = 2 powr (of_int k)"
proof (cases "0 \<le> k")
  case True
  then show ?thesis
    by (simp add: pow2_def powr_realpow [symmetric])
next
  case False
  define n where "n = nat (- k)"
  have k: "real_of_int k = - real n"
    using False by (simp add: n_def)
  have "2 powr (real_of_int k) = 1 / 2 powr real n"
    unfolding k by (simp add: powr_minus_divide)
  also have "\<dots> = 1 / 2 ^ n"
    by (simp add: powr_realpow)
  finally show ?thesis
    using False by (simp add: pow2_def n_def)
qed



lemma round_half_even_eq:
  "real_of_int n - 1 / 2 < y \<Longrightarrow> y < real_of_int n + 1 / 2 \<Longrightarrow> round_half_even y = n"
  unfolding round_half_even_def Let_def by (auto; linarith)

lemma round_half_even_of_int: "round_half_even (real_of_int n) = n"
  by (rule round_half_even_eq) simp_all

lemma float64_eval:
  assumes "0 < x" "pow2 k \<le> x" "x < pow2 (k + 1)"
  shows "float64 x = real_of_int (round_half_even (x * pow2 (52 - k))) * pow2 (k - 52)"
proof -
  have "\<lfloor>log 2 x\<rfloor> = k"
    using assms by (simp add: floor_log_eq_powr_iff pow2_powr)
  then show ?thesis
    using assms(1) by (simp add: float64_def Let_def)
qed



lemma float64_half: "float64 (1 / 2) = 1 / 2"
proof -
  have "round_half_even (1 / 2 * pow2 (52 - (- 1))) = 4503599627370496"
    using round_half_even_of_int [of 4503599627370496] by (simp add: pow2_def)
  then show ?thesis
    using float64_eval [of "1 / 2" "- 1"] by (simp add: pow2_def)
qed

lemma float64_quarter: "float64 (1 / 4) = 1 / 4"
proof -
  have "round_half_even (1 / 4 * pow2 (52 - (- 2))) = 4503599627370496"
    using round_half_even_of_int [of 4503599627370496] by (simp add: pow2_def)
  then show ?thesis
    using float64_eval [of "1 / 4" "- 2"] by (simp add: pow2_def)
qed

lemma sqrt_quarter: "sqrt (1 / 4) = 1 / 2"
  by (rule real_sqrt_unique) (simp_all add: power2_eq_square)

lemma float64_sqrt_three_quarters:
  "float64 (sqrt (3 / 4)) = 7800463371553962 / 2 ^ 53"
proof -
  let ?r = "sqrt (3 / 4) :: real"
  have lo: "1 / 2 \<le> ?r"
    by (rule real_le_rsqrt) (simp add: power2_eq_square)
  have hi: "?r < 1"
    by (rule real_less_lsqrt) simp_all
  have a: "(7800463371553962 - 1 / 2) / 2 ^ 53 < ?r"
    by (rule real_less_rsqrt) (simp add: power2_eq_square)
  have b: "?r < (7800463371553962 + 1 / 2) / 2 ^ 53"
    by (rule real_less_lsqrt) (simp_all add: power2_eq_square)
  have "round_half_even (?r * 2 ^ 53) = 7800463371553962"
    using a b by (intro round_half_even_eq) (simp_all add: field_simps)
  then have "round_half_even (?r * pow2 (52 - (- 1))) = 7800463371553962"
    by (simp add: pow2_def)
  moreover have "0 < ?r" "pow2 (- 1) \<le> ?r" "?r < pow2 (- 1 + 1)"
    using lo hi by (simp_all add: pow2_def)
  ultimately show ?thesis
    using float64_eval [of ?r "- 1"] by (simp add: pow2_def)
qed

lemma float64_square_three_quarters:
  "float64 ((7800463371553962 / 2 ^ 53) ^ 2) = 6755399441055743 / 2 ^ 53"
proof -
  let ?x = "(7800463371553962 / 2 ^ 53) ^ 2 :: real"
  have "round_half_even (?x * 2 ^ 53) = 6755399441055743"
    by (intro round_half_even_eq) (simp_all add: power2_eq_square)
  then have "round_half_even (?x * pow2 (52 - (- 1))) = 6755399441055743"
    by (simp add: pow2_def)
  moreover have "0 < ?x" "pow2 (- 1) \<le> ?x" "?x < pow2 (- 1 + 1)"
    by (simp_all add: pow2_def power2_eq_square)
  ultimately show ?thesis
    using float64_eval [of ?x "- 1"] by (simp add: pow2_def)
qed




lemma np_std_population: "np_std xs = float64 (sqrt (population_variance xs))"
  by (simp add: np_std_def np_mean_def population_variance_def arithmetic_mean_def)



lemma population_variance_2_3: "population_variance [2, 3] = 1 / 4"
  by (simp add: population_variance_def arithmetic_mean_def power2_eq_square)

lemma variance_2_3: "float64 (np_std [2, 3] ^ 2) = 1 / 4"
proof -
  have std: "np_std [2, 3] = 1 / 2"
    unfolding np_std_population population_variance_2_3 sqrt_quarter by (rule float64_half)
  then show ?thesis
    unfolding std using float64_quarter by (simp add: power2_eq_square)
qed

lemma population_variance_1_1_1_3: "population_variance [1, 1, 1, 3] = 3 / 4"
  by (simp add: population_variance_def arithmetic_mean_def power2_eq_square)

lemma variance_1_1_1_3:
  "float64 (np_std [1, 1, 1, 3] ^ 2) = 6755399441055743 / 9007199254740992"
proof -
  have std: "np_std [1, 1, 1, 3] = 7800463371553962 / 2 ^ 53"
    unfolding np_std_population population_variance_1_1_1_3
    by (rule float64_sqrt_three_quarters)
  show ?thesis
    unfolding std float64_square_three_quarters by simp
qed

lemma sorted_reverse_descending:
  "sorted_wrt (\<lambda>x y. key y \<le> key x) (sorted_reverse key xs)"
proof -
  have "sorted (map key (sort_key key (rev xs)))"
    by (rule sorted_sort_key)
  then have "sorted_wrt (\<lambda>x y. key x \<le> key y) (sort_key key (rev xs))"
    by (simp only: sorted_map)
  then show ?thesis
    by (simp only: sorted_reverse_def sorted_wrt_rev)
qed

lemma sorted_reverse_stable:
  "[i \<leftarrow> sorted_reverse key xs. key i = v] = [i \<leftarrow> xs. key i = v]"
proof -
  have "[i \<leftarrow> sorted_reverse key xs. key i = v]
        = rev [i \<leftarrow> sort_key key (rev xs). key i = v]"
    by (simp only: sorted_reverse_def rev_filter)
  also have "\<dots> = rev [i \<leftarrow> rev xs. key i = v]"
    by (simp only: sort_key_stable)
  also have "\<dots> = [i \<leftarrow> xs. key i = v]"
    by (simp only: rev_filter rev_rev_ident)
  finally show ?thesis .
qed

lemma length_sorted_reverse: "length (sorted_reverse key xs) = length xs"
  by (simp add: sorted_reverse_def)

lemma stable_descending_sorted_reverse: "stable_descending items (sorted_reverse snd items)"
  unfolding stable_descending_def
  using sorted_reverse_descending [of snd items] sorted_reverse_stable [of snd _ items]
  by blast

lemma fold_append_lines:
  "fold (\<lambda>(a, b) prompt. prompt @ g a b) xs prompt
   = prompt @ concat (map (\<lambda>(a, b). g a b) xs)"
  by (induction xs arbitrary: prompt) (auto split: prod.splits)

lemma str_nat_digit: "n < 10 \<Longrightarrow> str_nat n = [digit_char n]"
  by (simp add: str_nat.simps)

lemma format_percent_one_decimal:
  "\<exists>t. format_percent 1 v
        = (if v < 0 then ''-'' else '''') @ str_nat (t div 10) @ ''.''
          @ [digit_char (t mod 10)] @ ''%''
      \<and> \<bar>real t / 10 - 100 * \<bar>v\<bar>\<bar> \<le> 1 / 20"
proof -
  define y where "y = \<bar>v * 100\<bar> * 10"
  define t where "t = nat (round_half_even y)"
  have y0: "0 \<le> y" by (simp add: y_def)
  then have t: "real t = real_of_int (round_half_even y)"
    using round_half_even_nonneg [of y] by (simp add: t_def)
  have "\<bar>real t - y\<bar> \<le> 1 / 2"
    unfolding t by (rule round_half_even_near)
  then have near: "\<bar>real t / 10 - 100 * \<bar>v\<bar>\<bar> \<le> 1 / 20"
    by (simp add: y_def abs_mult field_simps)
  have "format_percent 1 v
        = (if v < 0 then ''-'' else '''') @ str_nat (t div 10) @ ''.''
          @ [digit_char (t mod 10)] @ ''%''"
    by (simp add: format_percent_def format_f_def Let_def t_def y_def str_nat_digit zfill_def
        mult_less_0_iff)
  with near show ?thesis by blast
qed

section \<open>The analyzer's result\<close>

lemma total_syllable_count_Inr:
  "(\<forall>w \<in> set ws. w \<noteq> []) \<Longrightarrow>
   \<exists>ns. map syllable_count ws = map Inr ns \<and> total_syllable_count ws = Inr (sum_list ns)"
proof (induction ws)
  case Nil
  then show ?case by simp
next
  case (Cons w ws)
  then obtain ns where ns: "map syllable_count ws = map Inr ns"
      "total_syllable_count ws = Inr (sum_list ns)"
    by auto
  from Cons.prems have "w \<noteq> []" by simp
  then obtain n where n: "syllable_count w = Inr n"
    using syllable_count_groups by blast
  have "map syllable_count (w # ws) = map Inr (n # ns)"
    using n ns by simp
  moreover have "total_syllable_count (w # ws) = Inr (sum_list (n # ns))"
    using n ns by simp
  ultimately show ?case by blast
qed

lemma total_syllable_count_Inr_D:
  "total_syllable_count ws = Inr syl \<Longrightarrow>
   \<exists>ns. map syllable_count ws = map Inr ns \<and> syl = sum_list ns"
proof (induction ws arbitrary: syl)
  case Nil
  then show ?case by simp
next
  case (Cons w ws)
  from Cons.prems obtain n m where n: "syllable_count w = Inr n"
    and m: "total_syllable_count ws = Inr m" and t: "syl = n + m"
    by (auto split: sum.splits)
  from Cons.IH [OF m] obtain ns where "map syllable_count ws = map Inr ns" "m = sum_list ns"
    by blast
  then have "map syllable_count (w # ws) = map Inr (n # ns) \<and> syl = sum_list (n # ns)"
    using n t by simp
  then show ?case by blast
qed

lemma words_of_nonempty:
  "\<forall>t \<in> set (doc_tokens d). is_alpha t \<longrightarrow> token_text t \<noteq> [] \<Longrightarrow>
   \<forall>w \<in> set (words_of d). w \<noteq> []"
  by (auto simp: words_of_def)

lemma words_of_Nil_if_no_tokens: "doc_tokens d = [] \<Longrightarrow> words_of d = []"
  by (simp add: words_of_def)

lemma fractions_Inr:
  "0 < T \<Longrightarrow> fractions kvs T = Inr [(k, real c / real T). (k, c) \<leftarrow> kvs]"
  by (induction kvs) (auto simp: truediv_def)

lemma fractions_branch:
  "(if 0 < T then fractions kvs T else Inr [])
   = Inr (if 0 < T then [(k, real c / real T). (k, c) \<leftarrow> kvs] else [])"
  by (simp add: fractions_Inr)

lemma ttr_of_eq:
  "ttr_of words
   = Inr (if words = [] then 0 else real (card (set words)) / real (length words))"
  by (simp add: ttr_of_def truediv_def)

lemma pos_distribution_of_eq:
  "pos_distribution_of d total_words =
     Inr (if 0 < total_words
          then [(pos, real count / real total_words).
                (pos, count) \<leftarrow> Counter [pos_tag t. t \<leftarrow> doc_tokens d,
                                           \<not> is_punct t \<and> \<not> is_space t]]
          else [])"
  unfolding pos_distribution_of_def Let_def by (rule fractions_branch)

lemma punct_distribution_of_eq:
  "punct_distribution_of d =
     Inr (let marks = [token_text t. t \<leftarrow> doc_tokens d, is_punct t]
          in if marks = [] then []
             else [(p, real c / real (length marks)). (p, c) \<leftarrow> Counter marks])"
proof -
  define marks where "marks = [token_text t. t \<leftarrow> doc_tokens d, is_punct t]"
  have "punct_distribution_of d
        = (if 0 < length marks then fractions (Counter marks) (length marks) else Inr [])"
    unfolding punct_distribution_of_def Let_def marks_def [symmetric] sum_Counter ..
  also have "\<dots> = Inr (if marks = [] then []
                        else [(p, real c / real (length marks)). (p, c) \<leftarrow> Counter marks])"
    by (cases "marks = []") (simp_all add: fractions_Inr)
  finally show ?thesis
    unfolding Let_def marks_def .
qed

lemma flesch_ease_of_eq:
  "flesch_ease_of total_sentences total_words total_syllables =
     Inr (if 0 < total_sentences \<and> 0 < total_words
          then 206.835 - 1.015 * (real total_words / real total_sentences)
               - 84.6 * (real_of_int total_syllables / real total_words)
          else 0)"
  by (simp add: flesch_ease_of_def truediv_def)

lemma analyze_Inr_iff:
  "analyze nlp text = Inr p \<longleftrightarrow>
     length (strip (doc_text (nlp text))) \<noteq> 0 \<and> sents (nlp text) \<noteq> [] \<and>
     words_of (nlp text) \<noteq> [] \<and>
     (\<exists>syl. total_syllable_count (words_of (nlp text)) = Inr syl \<and>
        p = \<lparr>avg_sentence_length = np_mean (map real (sentence_lengths_of (sents (nlp text)))),
      sentence_length_variance
        = float64 (np_std (map real (sentence_lengths_of (sents (nlp text)))) ^ 2),
      type_token_ratio = projr (ttr_of (words_of (nlp text))),
      pos_distribution
        = projr (pos_distribution_of (nlp text) (length (words_of (nlp text)))),
      punctuation_distribution = projr (punct_distribution_of (nlp text)),
      flesch_reading_ease =
        projr (flesch_ease_of (length (sents (nlp text))) (length (words_of (nlp text)))
                 syl)\<rparr>)"
proof (cases "doc_tokens (nlp text) = []")
  case True
  then show ?thesis
    by (simp add: analyze_def words_of_Nil_if_no_tokens)
next
  case False
  obtain a where a: "ttr_of (words_of (nlp text)) = Inr a"
    using ttr_of_eq by blast
  obtain b where b: "pos_distribution_of (nlp text) (length (words_of (nlp text))) = Inr b"
    using pos_distribution_of_eq by blast
  obtain c where c: "punct_distribution_of (nlp text) = Inr c"
    using punct_distribution_of_eq by blast
  have f: "\<exists>v. flesch_ease_of (length (sents (nlp text))) (length (words_of (nlp text))) syl
             = Inr v" for syl
    using flesch_ease_of_eq by blast
  show ?thesis
  proof (cases "total_syllable_count (words_of (nlp text))")
    case (Inl e)
    then show ?thesis
      by (simp add: analyze_def Let_def)
  next
    case (Inr syl)
    obtain v where v: "flesch_ease_of (length (sents (nlp text)))
        (length (words_of (nlp text))) syl = Inr v"
      using f by blast
    show ?thesis
      using False by (auto simp: analyze_def Let_def Inr a b c v sentence_lengths_of_def)
  qed
qed

lemma analyze_InrI:
  assumes "length (strip (doc_text (nlp text))) \<noteq> 0"
    and "sents (nlp text) \<noteq> []"
    and "words_of (nlp text) \<noteq> []"
    and "total_syllable_count (words_of (nlp text)) = Inr syl"
  shows "analyze nlp text =
    Inr \<lparr>avg_sentence_length = np_mean (map real (sentence_lengths_of (sents (nlp text)))),
         sentence_length_variance
           = float64 (np_std (map real (sentence_lengths_of (sents (nlp text)))) ^ 2),
         type_token_ratio = projr (ttr_of (words_of (nlp text))),
         pos_distribution
           = projr (pos_distribution_of (nlp text) (length (words_of (nlp text)))),
         punctuation_distribution = projr (punct_distribution_of (nlp text)),
         flesch_reading_ease =
           projr (flesch_ease_of (length (sents (nlp text))) (length (words_of (nlp text)))
                    syl)\<rparr>"
  using assms by (simp add: analyze_Inr_iff)

lemma analyze_fields:
  assumes "analyze nlp text = Inr p"
  shows "avg_sentence_length p = np_mean (map real (sentence_lengths_of (sents (nlp text))))"
    and "sentence_length_variance p
         = float64 (np_std (map real (sentence_lengths_of (sents (nlp text)))) ^ 2)"
    and "type_token_ratio p = projr (ttr_of (words_of (nlp text)))"
    and "pos_distribution p
         = projr (pos_distribution_of (nlp text) (length (words_of (nlp text))))"
    and "punctuation_distribution p = projr (punct_distribution_of (nlp text))"
    and "\<exists>syl. total_syllable_count (words_of (nlp text)) = Inr syl \<and>
           flesch_reading_ease p =
             projr (flesch_ease_of (length (sents (nlp text)))
                      (length (words_of (nlp text))) syl)"
    and "length (strip (doc_text (nlp text))) \<noteq> 0"
    and "sents (nlp text) \<noteq> []"
    and "words_of (nlp text) \<noteq> []"
  using assms by (auto simp: analyze_Inr_iff)

lemma pos_distribution_sum:
  assumes "0 < total_words"
  shows "sum_list (map snd (projr (pos_distribution_of d total_words)))
         = real (length [t \<leftarrow> doc_tokens d. \<not> is_punct t \<and> \<not> is_space t])
           / real total_words"
proof -
  let ?tags = "[pos_tag t. t \<leftarrow> doc_tokens d, \<not> is_punct t \<and> \<not> is_space t]"
  have "projr (pos_distribution_of d total_words)
        = [(pos, real count / real total_words). (pos, count) \<leftarrow> Counter ?tags]"
    using assms by (simp only: pos_distribution_of_eq sum.sel if_True)
  then have "sum_list (map snd (projr (pos_distribution_of d total_words)))
        = real (length ?tags) / real total_words"
    by (simp only: sum_list_fractions sum_Counter)
  then show ?thesis
    by (simp only: comprehension_map_filter length_map)
qed

section \<open>The analyzer and the formatter on the sample inputs\<close>

lemmas sample_token_defs =
  word_token_def punct_token_def num_token_def space_token_def
  dogs_sent1_def dogs_sent2_def pick_sent_def the_sent_def marks_sent1_def marks_sent2_def
  blank_sent_def go_sent1_def go_sent2_def go_sent3_def go_sent4_def

lemma sample_nlp_dogs: "sample_nlp ''Dogs run. Cats run fast!'' = dogs_doc"
  by (simp add: sample_nlp_def)

lemma sample_nlp_pick: "sample_nlp ''Pick 1, 2, 3 or 4.'' = pick_doc"
  by (simp add: sample_nlp_def)

lemma sample_nlp_the: "sample_nlp ''The end of the road'' = the_doc"
  by (simp add: sample_nlp_def)

lemma sample_nlp_go: "sample_nlp ''Go. Go 2. Wait. Run 2 and go.'' = go_doc"
  by (simp add: sample_nlp_def)

lemma words_of_dogs: "words_of dogs_doc = [''Dogs'', ''run'', ''Cats'', ''run'', ''fast'']"
  by (simp add: words_of_def dogs_doc_def sample_token_defs)

lemma words_of_pick: "words_of pick_doc = [''Pick'', ''or'']"
  by (simp add: words_of_def pick_doc_def sample_token_defs)

lemma words_of_the: "words_of the_doc = [''The'', ''end'', ''of'', ''the'', ''road'']"
  by (simp add: words_of_def the_doc_def sample_token_defs)

lemma words_of_go: "words_of go_doc = [''Go'', ''Go'', ''Wait'', ''Run'', ''and'', ''go'']"
  by (simp add: words_of_def go_doc_def sample_token_defs)

lemma syllables_dogs:
  "total_syllable_count [''Dogs'', ''run'', ''Cats'', ''run'', ''fast''] = Inr 5"
  by code_simp

lemma analyze_dogs: "analyze sample_nlp ''Dogs run. Cats run fast!'' = Inr dogs_analysis"
proof -
  have d: "sample_nlp ''Dogs run. Cats run fast!'' = dogs_doc"
    by (simp add: sample_nlp_def)
  have st: "length (strip (doc_text dogs_doc)) \<noteq> 0"
    by (simp add: dogs_doc_def strip_def isspace_def)
  have se: "sents dogs_doc \<noteq> []" and ls: "length (sents dogs_doc) = 2"
    by (simp_all add: dogs_doc_def)
  have wne: "words_of dogs_doc \<noteq> []" and lw: "length (words_of dogs_doc) = 5"
    by (simp_all add: words_of_dogs)
  have syl: "total_syllable_count (words_of dogs_doc) = Inr 5"
    unfolding words_of_dogs by (rule syllables_dogs)
  have sl: "map real (sentence_lengths_of (sents dogs_doc)) = [2, 3]"
    by (simp add: sentence_lengths_of_def dogs_doc_def sample_token_defs)
  have mean: "np_mean (map real (sentence_lengths_of (sents dogs_doc))) = 2.5"
    unfolding sl by (simp add: np_mean_def)
  have var: "float64 (np_std (map real (sentence_lengths_of (sents dogs_doc))) ^ 2) = 0.25"
    unfolding sl variance_2_3 by simp
  have ttr: "projr (ttr_of (words_of dogs_doc)) = 0.8"
    by (simp add: words_of_dogs ttr_of_eq card_insert_if)
  have pos: "projr (pos_distribution_of dogs_doc 5)
             = [(''NOUN'', 0.4), (''VERB'', 0.4), (''ADV'', 0.2)]"
    by (simp add: pos_distribution_of_eq dogs_doc_def sample_token_defs Counter_def)
  have pun: "projr (punct_distribution_of dogs_doc) = [(''.'', 0.5), (''!'', 0.5)]"
    by (simp add: punct_distribution_of_eq dogs_doc_def sample_token_defs Counter_def)
  have fl: "projr (flesch_ease_of 2 5 5) = 119.6975"
    by (simp add: flesch_ease_of_eq)
  show ?thesis
    using analyze_InrI [of sample_nlp "''Dogs run. Cats run fast!''" 5]
    unfolding d dogs_analysis_def mean var ttr lw ls pos pun fl
    using st se wne syl by blast
qed

lemma syllables_go:
  "map syllable_count [''Go'', ''Go'', ''Wait'', ''Run'', ''and'', ''go'']
   = map Inr [1, 1, 1, 1, 1, 1]"
  by code_simp

lemma analyze_go: "analyze sample_nlp ''Go. Go 2. Wait. Run 2 and go.'' = Inr go_analysis"
proof -
  have st: "length (strip (doc_text go_doc)) \<noteq> 0"
    by (simp add: go_doc_def strip_def isspace_def)
  have se: "sents go_doc \<noteq> []" and ls: "length (sents go_doc) = 4"
    by (simp_all add: go_doc_def)
  have wne: "words_of go_doc \<noteq> []" and lw: "length (words_of go_doc) = 6"
    by (simp_all add: words_of_go)
  have syl: "total_syllable_count (words_of go_doc) = Inr 6"
    unfolding words_of_go by code_simp
  have sl: "map real (sentence_lengths_of (sents go_doc)) = [1, 1, 1, 3]"
    by (simp add: sentence_lengths_of_def go_doc_def sample_token_defs)
  have mean: "np_mean (map real (sentence_lengths_of (sents go_doc))) = 1.5"
    unfolding sl by (simp add: np_mean_def)
  have var: "float64 (np_std (map real (sentence_lengths_of (sents go_doc))) ^ 2)
             = 6755399441055743 / 9007199254740992"
    unfolding sl by (rule variance_1_1_1_3)
  have ttr: "projr (ttr_of (words_of go_doc)) = 5 / 6"
    by (simp add: words_of_go ttr_of_eq card_insert_if)
  have pos: "projr (pos_distribution_of go_doc 6)
             = [(''VERB'', 5 / 6), (''NUM'', 1 / 3), (''CCONJ'', 1 / 6)]"
    by (simp add: pos_distribution_of_eq go_doc_def sample_token_defs Counter_def)
  have pun: "projr (punct_distribution_of go_doc) = [(''.'', 1)]"
    by (simp add: punct_distribution_of_eq go_doc_def sample_token_defs Counter_def)
  have fl: "projr (flesch_ease_of 4 6 6) = 120.7125"
    by (simp add: flesch_ease_of_eq)
  show ?thesis
    using analyze_InrI [of sample_nlp "''Go. Go 2. Wait. Run 2 and go.''" 6]
    unfolding sample_nlp_go go_analysis_def mean var ttr lw ls pos pun fl
    using st se wne syl by blast
qed

lemma analyze_pick:
  "\<exists>p. analyze sample_nlp ''Pick 1, 2, 3 or 4.'' = Inr p \<and>
       pos_distribution p = projr (pos_distribution_of pick_doc 2)"
proof -
  have st: "length (strip (doc_text pick_doc)) \<noteq> 0"
    by (simp add: pick_doc_def strip_def isspace_def)
  have se: "sents pick_doc \<noteq> []"
    by (simp add: pick_doc_def)
  have wne: "words_of pick_doc \<noteq> []" and lw: "length (words_of pick_doc) = 2"
    by (simp_all add: words_of_pick)
  have syl: "total_syllable_count (words_of pick_doc) = Inr 2"
    unfolding words_of_pick by code_simp
  show ?thesis
    using analyze_InrI [of sample_nlp "''Pick 1, 2, 3 or 4.''" 2]
    unfolding sample_nlp_pick lw
    using st se wne syl by simp
qed

lemma analyze_the:
  "\<exists>p. analyze sample_nlp ''The end of the road'' = Inr p"
proof -
  have st: "length (strip (doc_text the_doc)) \<noteq> 0"
    by (simp add: the_doc_def strip_def isspace_def)
  have se: "sents the_doc \<noteq> []"
    by (simp add: the_doc_def)
  have wne: "words_of the_doc \<noteq> []"
    by (simp_all add: words_of_the)
  have syl: "total_syllable_count (words_of the_doc) = Inr 5"
    unfolding words_of_the by code_simp
  show ?thesis
    using analyze_InrI [of sample_nlp "''The end of the road''" 5]
    unfolding sample_nlp_the
    using st se wne syl by simp
qed

lemma format_dogs:
  "format_analysis_for_prompt dogs_analysis ''Ernest Hemingway'' =
   ''## Stylistic Analysis of Ernest Hemingway'' @ nl @ nl
   @ ''- **Sentence Structure**: Emulate sentences with an average length of 2.5 words. The sentence length should be relatively consistent, with a variance of 0.2.'' @ nl
   @ ''- **Vocabulary**: Use a vocabulary of moderate richness (Type-Token Ratio of around 0.80). Avoid overly obscure or complex words.'' @ nl
   @ ''- **Grammar (Part-of-Speech)**: The writing heavily features the following parts of speech. Replicate this distribution:'' @ nl
   @ ''  - NOUN: ~40.0%'' @ nl
   @ ''  - VERB: ~40.0%'' @ nl
   @ ''  - ADV: ~20.0%'' @ nl
   @ ''- **Punctuation**: Punctuation usage is a key part of the style. Prioritize the following marks:'' @ nl
   @ ''  - The '' @ [CHR 0x27] @ ''.'' @ [CHR 0x27] @ '' character comprises ~50.0% of all punctuation.'' @ nl
   @ ''  - The '' @ [CHR 0x27] @ ''!'' @ [CHR 0x27] @ '' character comprises ~50.0% of all punctuation.'' @ nl
   @ ''- **Clarity**: The overall style is clear and direct, with a Flesch Reading Ease score around 120. Aim for this level of readability.'' @ nl"
  by code_simp

section \<open>The analyzer's failures\<close>

text \<open>
  C3. \<open>analyze\<close> fails, returning no profile, exactly when the input is insufficient: when
  the stripped text has length zero, or when the pipeline yields no sentence or no
  alphabetic token. The first condition raises the first \<open>ValueError\<close>, the second
  condition (on a document that passed the first check) raises the second one. In
  particular \<open>analyze\<close> fails on the empty text, on three blanks and on "!!! ... ???".
  The pipeline is a parameter; what is assumed of it is that an alphabetic token has a
  non-empty surface text, and that it reports no alphabetic token on the three example
  texts.
\<close>

theorem analyze_raises_iff_insufficient:
  assumes "\<forall>t \<in> set (doc_tokens (nlp text)). is_alpha t \<longrightarrow> token_text t \<noteq> []"
    and "\<forall>s \<in> {'''', ''   '', ''!!! ... ???''}. \<forall>t \<in> set (doc_tokens (nlp s)). \<not> is_alpha t"
  shows "((\<exists>e. analyze nlp text = Inl e) \<longleftrightarrow>
            length (strip (doc_text (nlp text))) = 0 \<or> sents (nlp text) = [] \<or>
            words_of (nlp text) = [])
    \<and> (length (strip (doc_text (nlp text))) = 0 \<longrightarrow>
         analyze nlp text
         = Inl (ValueError ''Input text is empty or contains only whitespace.''))
    \<and> (doc_tokens (nlp text) \<noteq> [] \<and> length (strip (doc_text (nlp text))) \<noteq> 0 \<and>
       (sents (nlp text) = [] \<or> words_of (nlp text) = []) \<longrightarrow>
         analyze nlp text
         = Inl (ValueError ''Could not extract sentences or words from the text.''))
    \<and> (\<exists>e. analyze nlp '''' = Inl e)
    \<and> (\<exists>e. analyze nlp ''   '' = Inl e)
    \<and> (\<exists>e. analyze nlp ''!!! ... ???'' = Inl e)"
proof -
  have no_words: "\<exists>e. analyze nlp s = Inl e" if "words_of (nlp s) = []" for s
    using that by (simp add: analyze_def Let_def)
  have ex: "\<exists>e. analyze nlp s = Inl e" if "s \<in> {'''', ''   '', ''!!! ... ???''}" for s
  proof -
    from assms(2) that have "\<forall>t \<in> set (doc_tokens (nlp s)). \<not> is_alpha t" by blast
    then have "words_of (nlp s) = []"
      by (simp add: words_of_def comprehension_map_filter filter_empty_conv)
    then show ?thesis by (rule no_words)
  qed
  obtain ns where "total_syllable_count (words_of (nlp text)) = Inr (sum_list ns)"
    using total_syllable_count_Inr [OF words_of_nonempty, OF assms(1)] by blast
  then have "(\<exists>p. analyze nlp text = Inr p) \<longleftrightarrow>
      \<not> (length (strip (doc_text (nlp text))) = 0 \<or> sents (nlp text) = [] \<or>
         words_of (nlp text) = [])"
    by (simp add: analyze_Inr_iff)
  moreover have "(\<exists>e. analyze nlp text = Inl e) \<longleftrightarrow> \<not> (\<exists>p. analyze nlp text = Inr p)"
    by (cases "analyze nlp text") auto
  ultimately have iff: "(\<exists>e. analyze nlp text = Inl e) \<longleftrightarrow>
      length (strip (doc_text (nlp text))) = 0 \<or> sents (nlp text) = [] \<or>
      words_of (nlp text) = []"
    by simp
  have first: "length (strip (doc_text (nlp text))) = 0 \<longrightarrow>
      analyze nlp text = Inl (ValueError ''Input text is empty or contains only whitespace.'')"
    by (simp add: analyze_def Let_def)
  have second: "doc_tokens (nlp text) \<noteq> [] \<and> length (strip (doc_text (nlp text))) \<noteq> 0 \<and>
       (sents (nlp text) = [] \<or> words_of (nlp text) = []) \<longrightarrow>
      analyze nlp text
      = Inl (ValueError ''Could not extract sentences or words from the text.'')"
    by (auto simp: analyze_def Let_def)
  show ?thesis
    using iff first second ex by blast
qed

theorem analyze_raises_iff_insufficient_witness:
  "[t \<leftarrow> doc_tokens (sample_nlp ''Dogs run. Cats run fast!''). is_alpha t \<and> token_text t = []]
     = []
   \<and> words_of (sample_nlp '''') = []
   \<and> words_of (sample_nlp ''   '') = []
   \<and> words_of (sample_nlp ''!!! ... ???'') = []
   \<and> \<not> (\<exists>e. analyze sample_nlp ''Dogs run. Cats run fast!'' = Inl e)
   \<and> (\<exists>e. analyze sample_nlp '''' = Inl e)
   \<and> (\<exists>e. analyze sample_nlp ''   '' = Inl e)
   \<and> (\<exists>e. analyze sample_nlp ''!!! ... ???'' = Inl e)"
proof -
  have h1: "\<forall>t \<in> set (doc_tokens (sample_nlp ''Dogs run. Cats run fast!'')).
      is_alpha t \<longrightarrow> token_text t \<noteq> []"
    by (simp add: sample_nlp_def dogs_doc_def sample_token_defs)
  have h2: "\<forall>s \<in> {'''', ''   '', ''!!! ... ???''}.
      \<forall>t \<in> set (doc_tokens (sample_nlp s)). \<not> is_alpha t"
    by (simp add: sample_nlp_def marks_doc_def blank_doc_def sample_token_defs)
  have e1: "[t \<leftarrow> doc_tokens (sample_nlp ''Dogs run. Cats run fast!'').
             is_alpha t \<and> token_text t = []] = []"
    using h1 by (simp only: filter_empty_conv) blast
  have e2: "words_of (sample_nlp '''') = []" "words_of (sample_nlp ''   '') = []"
    "words_of (sample_nlp ''!!! ... ???'') = []"
    by (simp_all add: words_of_def sample_nlp_def marks_doc_def blank_doc_def
        sample_token_defs)
  show ?thesis
    using analyze_raises_iff_insufficient
        [of sample_nlp "''Dogs run. Cats run fast!''", OF h1 h2] e1 e2 analyze_dogs
    by simp
qed

text \<open>
  C10. Whenever \<open>analyze\<close> returns a profile, \<open>total_words > 0\<close> and \<open>total_sentences > 0\<close>,
  so the expressions for \<open>type_token_ratio\<close> and \<open>flesch_reading_ease\<close> take their dividing
  branch; and when no alphabetic token of the pipeline is flagged as punctuation or as
  whitespace, \<open>pos_distribution\<close> is not empty.
\<close>

theorem analyze_success_nonzero_denominators:
  assumes "analyze nlp text = Inr p"
    and "\<forall>t \<in> set (doc_tokens (nlp text)). is_alpha t \<longrightarrow> \<not> is_punct t \<and> \<not> is_space t"
  shows "(let words = words_of (nlp text);
              total_words = length words;
              total_sentences = length (sents (nlp text))
          in 0 < total_words \<and> 0 < total_sentences \<and>
             ttr_of words = Inr (real (card (set words)) / real total_words) \<and>
             (\<forall>total_syllables.
                flesch_ease_of total_sentences total_words total_syllables
                = Inr (206.835 - 1.015 * (real total_words / real total_sentences)
                       - 84.6 * (real_of_int total_syllables / real total_words))) \<and>
             pos_distribution p \<noteq> [])"
proof -
  from assms(1) have w: "words_of (nlp text) \<noteq> []" and s: "sents (nlp text) \<noteq> []"
    and pd: "pos_distribution p
             = projr (pos_distribution_of (nlp text) (length (words_of (nlp text))))"
    by (auto simp: analyze_Inr_iff)
  from w obtain t where t: "t \<in> set (doc_tokens (nlp text))" "is_alpha t"
    by (auto simp: words_of_def filter_empty_conv)
  with assms(2) have "\<not> is_punct t \<and> \<not> is_space t" by blast
  with t have "[pos_tag t. t \<leftarrow> doc_tokens (nlp text), \<not> is_punct t \<and> \<not> is_space t] \<noteq> []"
    by (auto simp: filter_empty_conv)
  then have "pos_distribution p \<noteq> []"
    using w unfolding pd pos_distribution_of_eq
    by (simp add: Counter_Nil_iff)
  with w s show ?thesis
    by (simp add: Let_def ttr_of_eq flesch_ease_of_eq)
qed

theorem analyze_success_nonzero_denominators_witness:
  "analyze sample_nlp ''Dogs run. Cats run fast!'' = Inr dogs_analysis \<and>
   [t \<leftarrow> doc_tokens (sample_nlp ''Dogs run. Cats run fast!'').
      is_alpha t \<and> (is_punct t \<or> is_space t)] = [] \<and>
   0 < length (words_of (sample_nlp ''Dogs run. Cats run fast!'')) \<and>
   0 < length (sents (sample_nlp ''Dogs run. Cats run fast!'')) \<and>
   pos_distribution dogs_analysis \<noteq> []"
proof -
  have h: "\<forall>t \<in> set (doc_tokens (sample_nlp ''Dogs run. Cats run fast!'')).
      is_alpha t \<longrightarrow> \<not> is_punct t \<and> \<not> is_space t"
    by (simp add: sample_nlp_dogs dogs_doc_def sample_token_defs)
  have e: "[t \<leftarrow> doc_tokens (sample_nlp ''Dogs run. Cats run fast!'').
      is_alpha t \<and> (is_punct t \<or> is_space t)] = []"
    using h by (simp only: filter_empty_conv) blast
  show ?thesis
    using analyze_success_nonzero_denominators
      [of sample_nlp "''Dogs run. Cats run fast!''" dogs_analysis, OF analyze_dogs h]
      analyze_dogs e
    unfolding Let_def by blast
qed

section \<open>The statistics of the profile\<close>




text \<open>
  C5. For every analyzed text \<open>total_words > 0\<close>, and \<open>type_token_ratio\<close> is the number of
  distinct exact surface forms among the alphabetic tokens divided by \<open>total_words\<close>, so it
  lies in [0,1]. The expression that computes it yields 0, through its guard and not
  through a division, when there are no words.
\<close>

theorem type_token_ratio_distinct_forms:
  "(analyze nlp text = Inr p \<longrightarrow>
     (let words = [token_text t. t \<leftarrow> doc_tokens (nlp text), is_alpha t]
      in 0 < length words \<and>
         type_token_ratio p = real (card (set words)) / real (length words) \<and>
         0 \<le> type_token_ratio p \<and> type_token_ratio p \<le> 1))
   \<and> ttr_of [] = Inr 0"
proof -
  have le: "real (card (set ws)) / real (length ws) \<le> 1" if "ws \<noteq> []" for ws :: "string list"
    using that card_length [of ws] by simp
  have "0 < length (words_of (nlp text)) \<and>
        type_token_ratio p
          = real (card (set (words_of (nlp text)))) / real (length (words_of (nlp text))) \<and>
        0 \<le> type_token_ratio p \<and> type_token_ratio p \<le> 1"
    if ok: "analyze nlp text = Inr p"
    using analyze_fields(3,9) [OF ok] le [of "words_of (nlp text)"]
    by (simp add: ttr_of_eq)
  moreover have "ttr_of [] = Inr 0"
    by (simp add: ttr_of_eq)
  ultimately show ?thesis
    unfolding Let_def words_of_def [symmetric] by blast
qed

theorem type_token_ratio_distinct_forms_witness:
  "analyze sample_nlp ''Go. Go 2. Wait. Run 2 and go.'' = Inr go_analysis \<and>
   [token_text t. t \<leftarrow> doc_tokens (sample_nlp ''Go. Go 2. Wait. Run 2 and go.''), is_alpha t]
     = [''Go'', ''Go'', ''Wait'', ''Run'', ''and'', ''go''] \<and>
   type_token_ratio go_analysis = 5 / 6"
proof -
  have w: "[token_text t. t \<leftarrow> doc_tokens (sample_nlp ''Go. Go 2. Wait. Run 2 and go.''),
            is_alpha t] = [''Go'', ''Go'', ''Wait'', ''Run'', ''and'', ''go'']"
    using words_of_go by (simp add: sample_nlp_go words_of_def)
  have "type_token_ratio go_analysis = 5 / 6"
    using type_token_ratio_distinct_forms
      [of sample_nlp "''Go. Go 2. Wait. Run 2 and go.''" go_analysis] analyze_go
    unfolding w Let_def by (simp add: card_insert_if)
  with analyze_go w show ?thesis by blast
qed

text \<open>
  C6. For every analyzed text, \<open>flesch_reading_ease\<close> is
  206.835 - 1.015 * (total_words / total_sentences) - 84.6 * (total_syllables / total_words),
  where \<open>total_words\<close> counts the alphabetic tokens and \<open>total_syllables\<close> is the sum of
  \<open>syllable_count\<close> over them. The expression that computes it yields exactly 0, through
  its guard and not through a division, when \<open>total_sentences\<close> is 0 or \<open>total_words\<close>
  is 0.
\<close>

theorem flesch_reading_ease_formula:
  "(analyze nlp text = Inr p \<longrightarrow>
     (let words = [token_text t. t \<leftarrow> doc_tokens (nlp text), is_alpha t];
          total_words = length words;
          total_sentences = length (sents (nlp text))
      in 0 < total_words \<and> 0 < total_sentences \<and>
         (\<exists>ns. map syllable_count words = map Inr ns \<and>
            flesch_reading_ease p =
              206.835 - 1.015 * (real total_words / real total_sentences)
              - 84.6 * (real_of_int (sum_list ns) / real total_words))))
   \<and> (\<forall>total_words total_syllables. flesch_ease_of 0 total_words total_syllables = Inr 0)
   \<and> (\<forall>total_sentences total_syllables.
         flesch_ease_of total_sentences 0 total_syllables = Inr 0)"
proof -
  have "\<exists>ns. map syllable_count (words_of (nlp text)) = map Inr ns \<and>
          flesch_reading_ease p =
            206.835 - 1.015 * (real (length (words_of (nlp text))) / real (length (sents (nlp text))))
            - 84.6 * (real_of_int (sum_list ns) / real (length (words_of (nlp text))))"
    if ok: "analyze nlp text = Inr p"
  proof -
    from ok obtain syl where syl: "total_syllable_count (words_of (nlp text)) = Inr syl"
      and fl: "flesch_reading_ease p =
        projr (flesch_ease_of (length (sents (nlp text))) (length (words_of (nlp text))) syl)"
      and ne: "sents (nlp text) \<noteq> []" "words_of (nlp text) \<noteq> []"
      by (auto simp: analyze_Inr_iff)
    from total_syllable_count_Inr_D [OF syl] obtain ns
      where ns: "map syllable_count (words_of (nlp text)) = map Inr ns" "syl = sum_list ns"
      by blast
    show ?thesis
      using ns fl ne by (intro exI [of _ ns]) (simp add: flesch_ease_of_eq)
  qed
  moreover have "analyze nlp text = Inr p \<Longrightarrow>
      0 < length (words_of (nlp text)) \<and> 0 < length (sents (nlp text))"
    by (simp add: analyze_Inr_iff)
  ultimately show ?thesis
    unfolding Let_def words_of_def [symmetric] by (simp add: flesch_ease_of_eq)
qed

theorem flesch_reading_ease_formula_witness:
  "analyze sample_nlp ''Go. Go 2. Wait. Run 2 and go.'' = Inr go_analysis \<and>
   [token_text t. t \<leftarrow> doc_tokens (sample_nlp ''Go. Go 2. Wait. Run 2 and go.''), is_alpha t]
     = [''Go'', ''Go'', ''Wait'', ''Run'', ''and'', ''go''] \<and>
   map syllable_count [''Go'', ''Go'', ''Wait'', ''Run'', ''and'', ''go'']
     = map Inr [1, 1, 1, 1, 1, 1] \<and>
   length (sents (sample_nlp ''Go. Go 2. Wait. Run 2 and go.'')) = 4 \<and>
   flesch_reading_ease go_analysis = 206.835 - 1.015 * (6 / 4) - 84.6 * (6 / 6)"
proof -
  let ?T = "''Go. Go 2. Wait. Run 2 and go.''"
  let ?W = "[token_text t. t \<leftarrow> doc_tokens (sample_nlp ?T), is_alpha t]"
  have w: "?W = [''Go'', ''Go'', ''Wait'', ''Run'', ''and'', ''go'']"
    using words_of_go by (simp add: sample_nlp_go words_of_def)
  have s: "length (sents (sample_nlp ?T)) = 4"
    by (simp add: sample_nlp_go go_doc_def)
  have "\<exists>ns. map syllable_count ?W = map Inr ns \<and>
          flesch_reading_ease go_analysis =
            206.835
            - 1.015 * (real (length ?W) / real (length (sents (sample_nlp ?T))))
            - 84.6 * (real_of_int (sum_list ns) / real (length ?W))"
    using flesch_reading_ease_formula [of sample_nlp ?T go_analysis] analyze_go
    unfolding Let_def by blast
  then obtain ns where ns: "map syllable_count ?W = map Inr ns"
    and fl: "flesch_reading_ease go_analysis =
            206.835
            - 1.015 * (real (length ?W) / real (length (sents (sample_nlp ?T))))
            - 84.6 * (real_of_int (sum_list ns) / real (length ?W))"
    by blast
  from ns syllables_go have "map Inr ns = (map Inr [1, 1, 1, 1, 1, 1] :: (error + int) list)"
    unfolding w by simp
  then have "ns = [1, 1, 1, 1, 1, 1]"
    by (auto simp: map_eq_Cons_conv)
  with fl analyze_go syllables_go w s show ?thesis
    by simp
qed

text \<open>
  C7. For every analyzed text, \<open>punctuation_distribution\<close> maps the surface text of each
  punctuation token to its tally divided by the number of punctuation tokens, and maps
  nothing else; its keys are distinct; its values sum to 1 when there is at least one
  punctuation token; and it is the empty mapping, by the branch on the zero total, when
  there is none.
\<close>

theorem punctuation_distribution_fractions:
  "analyze nlp text = Inr p \<Longrightarrow>
   (let marks = [token_text t. t \<leftarrow> doc_tokens (nlp text), is_punct t];
        dist = punctuation_distribution p
    in (marks = [] \<longrightarrow> dist = []) \<and>
       (marks \<noteq> [] \<longrightarrow> sum_list (map snd dist) = 1) \<and>
       distinct (map fst dist) \<and>
       (\<forall>m. map_of dist m =
          (if m \<in> set marks
           then Some (real (count_list marks m) / real (length marks)) else None)))"
proof -
  assume ok: "analyze nlp text = Inr p"
  let ?marks = "[token_text t. t \<leftarrow> doc_tokens (nlp text), is_punct t]"
  have dist: "punctuation_distribution p =
      (if ?marks = [] then []
       else [(p, real c / real (length ?marks)). (p, c) \<leftarrow> Counter ?marks])"
    unfolding analyze_fields(5) [OF ok] punct_distribution_of_eq Let_def sum.sel ..
  define marks where "marks = ?marks"
  note dist' = dist [folded marks_def]
  have a: "marks = [] \<longrightarrow> punctuation_distribution p = []"
    unfolding dist' by simp
  have b: "marks \<noteq> [] \<longrightarrow> sum_list (map snd (punctuation_distribution p)) = 1"
    unfolding dist' using sum_list_fractions [of "real (length marks)" "Counter marks"]
    by (simp add: sum_Counter)
  have c: "distinct (map fst (punctuation_distribution p))"
  proof (cases "marks = []")
    case True
    then show ?thesis unfolding dist' by simp
  next
    case False
    then have "map fst (punctuation_distribution p) = map fst (Counter marks)"
      unfolding dist' by (simp only: if_False keys_fractions)
    then show ?thesis by (simp only: distinct_Counter)
  qed
  have d: "map_of (punctuation_distribution p) m =
      (if m \<in> set marks
       then Some (real (count_list marks m) / real (length marks)) else None)" for m
    unfolding dist' using map_of_fractions [of "real (length marks)" "Counter marks" m]
    by (simp add: map_of_Counter)
  show ?thesis
    unfolding Let_def marks_def [symmetric] using a b c d by blast
qed

theorem punctuation_distribution_fractions_witness:
  "analyze sample_nlp ''Dogs run. Cats run fast!'' = Inr dogs_analysis \<and>
   sum_list (map snd (punctuation_distribution dogs_analysis)) = 1 \<and>
   map_of (punctuation_distribution dogs_analysis) ''!'' = Some (1 / 2) \<and>
   map_of (punctuation_distribution dogs_analysis) ''?'' = None"
proof -
  have m: "[token_text t. t \<leftarrow> doc_tokens (sample_nlp ''Dogs run. Cats run fast!''),
            is_punct t] = [''.'', ''!'']"
    by (simp add: sample_nlp_dogs dogs_doc_def sample_token_defs)
  show ?thesis
    using punctuation_distribution_fractions [OF analyze_dogs] analyze_dogs
    unfolding m Let_def by simp
qed

text \<open>
  C1. The claim: whenever \<open>analyze\<close> returns a profile, \<open>total_words > 0\<close> and some token
  is neither punctuation nor whitespace, every value of \<open>pos_distribution\<close> lies in [0,1]
  and the values sum to 1. The code tallies the tags of all tokens that are neither
  punctuation nor whitespace, and divides each tally by the number of alphabetic tokens.
  On the text "Pick 1, 2, 3 or 4." (two alphabetic tokens, four numerals) the analyzer
  returns the fractions 1/2, 2 and 1/2: one value is 2 and the sum is 3.
\<close>

theorem pos_distribution_fractions_exceed_one:
  "\<exists>p. analyze sample_nlp ''Pick 1, 2, 3 or 4.'' = Inr p \<and>
       length (words_of (sample_nlp ''Pick 1, 2, 3 or 4.'')) = 2 \<and>
       pos_distribution p = [(''VERB'', 1 / 2), (''NUM'', 2), (''CCONJ'', 1 / 2)] \<and>
       sum_list (map snd (pos_distribution p)) = 3"
proof -
  have pos: "projr (pos_distribution_of pick_doc 2)
             = [(''VERB'', 1 / 2), (''NUM'', 2), (''CCONJ'', 1 / 2)]"
    by (simp add: pos_distribution_of_eq pick_doc_def sample_token_defs Counter_def)
  obtain p where p: "analyze sample_nlp ''Pick 1, 2, 3 or 4.'' = Inr p"
    "pos_distribution p = projr (pos_distribution_of pick_doc 2)"
    using analyze_pick by blast
  have "sum_list (map snd (pos_distribution p)) = 3"
    unfolding p(2) pos by simp
  then show ?thesis
    using p pos by (simp add: sample_nlp_pick words_of_pick)
qed

text \<open>
  C9. When the pipeline's output for a text is two sentences whose alphabetic tokens are
  Dogs, run and Cats, run, fast (as for "Dogs run. Cats run fast!"), \<open>analyze\<close> returns a
  profile with \<open>type_token_ratio\<close> 0.8, \<open>avg_sentence_length\<close> 2.5 and
  \<open>sentence_length_variance\<close> 0.25.
\<close>

theorem dogs_cats_example:
  assumes "length (strip (doc_text (nlp text))) \<noteq> 0"
    and "sents (nlp text) = [s1, s2]"
    and "doc_tokens (nlp text) = s1 @ s2"
    and "[token_text t. t \<leftarrow> s1, is_alpha t] = [''Dogs'', ''run'']"
    and "[token_text t. t \<leftarrow> s2, is_alpha t] = [''Cats'', ''run'', ''fast'']"
  shows "\<exists>p. analyze nlp text = Inr p \<and> type_token_ratio p = 0.8 \<and>
           avg_sentence_length p = 2.5 \<and> sentence_length_variance p = 0.25"
proof -
  have w: "words_of (nlp text) = [''Dogs'', ''run'', ''Cats'', ''run'', ''fast'']"
    using assms(4,5) by (simp add: words_of_def assms(3))
  have l1: "length [t \<leftarrow> s1. is_alpha t] = 2"
    using arg_cong [OF assms(4), of length] by (simp add: comprehension_map_filter)
  have l2: "length [t \<leftarrow> s2. is_alpha t] = 3"
    using arg_cong [OF assms(5), of length] by (simp add: comprehension_map_filter)
  have sl: "map real (sentence_lengths_of (sents (nlp text))) = [2, 3]"
    by (simp add: sentence_lengths_of_def assms(2) l1 l2)
  have se: "sents (nlp text) \<noteq> []"
    by (simp add: assms(2))
  have wne: "words_of (nlp text) \<noteq> []"
    by (simp add: w)
  have syl: "total_syllable_count (words_of (nlp text)) = Inr 5"
    unfolding w by (rule syllables_dogs)
  note an = analyze_InrI [of nlp "text" 5, OF assms(1) se wne syl]
  have ttr: "projr (ttr_of (words_of (nlp text))) = 0.8"
    by (simp add: w ttr_of_eq card_insert_if)
  have mean: "np_mean (map real (sentence_lengths_of (sents (nlp text)))) = 2.5"
    unfolding sl by (simp add: np_mean_def)
  have var: "float64 (np_std (map real (sentence_lengths_of (sents (nlp text)))) ^ 2) = 0.25"
    unfolding sl variance_2_3 by simp
  show ?thesis
    unfolding an ttr mean var by simp
qed

theorem dogs_cats_example_witness:
  "analyze sample_nlp ''Dogs run. Cats run fast!'' = Inr dogs_analysis \<and>
   type_token_ratio dogs_analysis = 0.8 \<and> avg_sentence_length dogs_analysis = 2.5 \<and>
   sentence_length_variance dogs_analysis = 0.25"
proof -
  let ?s1 = dogs_sent1
  let ?s2 = dogs_sent2
  have d: "sample_nlp ''Dogs run. Cats run fast!'' = dogs_doc"
    by (simp add: sample_nlp_def)
  have h1: "length (strip (doc_text (sample_nlp ''Dogs run. Cats run fast!''))) \<noteq> 0"
    by (simp add: d dogs_doc_def strip_def isspace_def)
  have h2: "sents (sample_nlp ''Dogs run. Cats run fast!'') = [?s1, ?s2]"
    by (simp add: d dogs_doc_def)
  have h3: "doc_tokens (sample_nlp ''Dogs run. Cats run fast!'') = ?s1 @ ?s2"
    by (simp add: d dogs_doc_def)
  have h4: "[token_text t. t \<leftarrow> ?s1, is_alpha t] = [''Dogs'', ''run'']"
    by (simp add: sample_token_defs)
  have h5: "[token_text t. t \<leftarrow> ?s2, is_alpha t] = [''Cats'', ''run'', ''fast'']"
    by (simp add: sample_token_defs)
  show ?thesis
    using dogs_cats_example [of sample_nlp "''Dogs run. Cats run fast!''" ?s1 ?s2,
        OF h1 h2 h3 h4 h5] analyze_dogs
    by (simp add: dogs_analysis_def)
qed

section \<open>The formatter\<close>

text \<open>
  C8. For every profile and author name, the formatter's output is the three opening
  lines, the grammar heading, one line per entry of \<open>top_pos\<close>, the punctuation heading, one
  line per entry of \<open>top_puncts\<close>, and the clarity line. \<open>top_pos\<close> holds the first 5 entries
  (all of them if there are fewer) of the rearrangement of \<open>pos_distribution\<close> in
  descending order of fraction in which entries of equal fraction keep the insertion order
  of the mapping; \<open>top_puncts\<close> holds the first 3 entries of that rearrangement of
  \<open>punctuation_distribution\<close>. Each line renders its fraction as a percentage with one
  digit after the decimal point, within 0.05 of the exact percentage.
\<close>

theorem formatter_lists_top_entries:
  "\<exists>top_pos rest_pos top_puncts rest_puncts.
     format_analysis_for_prompt a author_name
       = title_line author_name @ sentence_structure_line a @ vocabulary_line a
         @ grammar_heading @ concat (map (\<lambda>(pos, v). pos_line pos v) top_pos)
         @ punctuation_heading @ concat (map (\<lambda>(p, v). punct_line p v) top_puncts)
         @ clarity_line a
     \<and> length top_pos = min 5 (length (pos_distribution a))
     \<and> stable_descending (pos_distribution a) (top_pos @ rest_pos)
     \<and> length top_puncts = min 3 (length (punctuation_distribution a))
     \<and> stable_descending (punctuation_distribution a) (top_puncts @ rest_puncts)
     \<and> (\<forall>pos v. \<exists>t.
          pos_line pos v
            = ''  - '' @ pos @ '': ~'' @ (if v < 0 then ''-'' else '''')
              @ str_nat (t div 10) @ ''.'' @ [digit_char (t mod 10)] @ ''%'' @ nl
          \<and> \<bar>real t / 10 - 100 * \<bar>v\<bar>\<bar> \<le> 1 / 20)
     \<and> (\<forall>p v. \<exists>t.
          punct_line p v
            = ''  - The '' @ [CHR 0x27] @ p @ [CHR 0x27] @ '' character comprises ~''
              @ (if v < 0 then ''-'' else '''')
              @ str_nat (t div 10) @ ''.'' @ [digit_char (t mod 10)] @ ''%''
              @ '' of all punctuation.'' @ nl
          \<and> \<bar>real t / 10 - 100 * \<bar>v\<bar>\<bar> \<le> 1 / 20)"
proof -
  let ?sp = "sorted_reverse snd (pos_distribution a)"
  let ?sq = "sorted_reverse snd (punctuation_distribution a)"
  have out: "format_analysis_for_prompt a author_name
       = title_line author_name @ sentence_structure_line a @ vocabulary_line a
         @ grammar_heading @ concat (map (\<lambda>(pos, v). pos_line pos v) (take 5 ?sp))
         @ punctuation_heading @ concat (map (\<lambda>(p, v). punct_line p v) (take 3 ?sq))
         @ clarity_line a"
    by (simp add: format_analysis_for_prompt_def Let_def fold_append_lines)
  have lp: "length (take 5 ?sp) = min 5 (length (pos_distribution a))"
    by (simp add: length_sorted_reverse min.commute)
  have lq: "length (take 3 ?sq) = min 3 (length (punctuation_distribution a))"
    by (simp add: length_sorted_reverse min.commute)
  have sp: "stable_descending (pos_distribution a) (take 5 ?sp @ drop 5 ?sp)"
    unfolding append_take_drop_id by (rule stable_descending_sorted_reverse)
  have sq: "stable_descending (punctuation_distribution a) (take 3 ?sq @ drop 3 ?sq)"
    unfolding append_take_drop_id by (rule stable_descending_sorted_reverse)
  have pl: "\<exists>t. pos_line pos v
            = ''  - '' @ pos @ '': ~'' @ (if v < 0 then ''-'' else '''')
              @ str_nat (t div 10) @ ''.'' @ [digit_char (t mod 10)] @ ''%'' @ nl
          \<and> \<bar>real t / 10 - 100 * \<bar>v\<bar>\<bar> \<le> 1 / 20" for pos v
    using format_percent_one_decimal [of v] unfolding pos_line_def by auto
  have ql: "\<exists>t. punct_line p v
            = ''  - The '' @ [CHR 0x27] @ p @ [CHR 0x27] @ '' character comprises ~''
              @ (if v < 0 then ''-'' else '''')
              @ str_nat (t div 10) @ ''.'' @ [digit_char (t mod 10)] @ ''%''
              @ '' of all punctuation.'' @ nl
          \<and> \<bar>real t / 10 - 100 * \<bar>v\<bar>\<bar> \<le> 1 / 20" for p v
    using format_percent_one_decimal [of v] unfolding punct_line_def by auto
  show ?thesis
    using out lp sp lq sq pl ql by blast
qed

theorem formatter_lists_top_entries_witness:
  "(\<exists>top_pos rest_pos top_puncts rest_puncts.
     format_analysis_for_prompt dogs_analysis ''Ernest Hemingway''
       = title_line ''Ernest Hemingway'' @ sentence_structure_line dogs_analysis
         @ vocabulary_line dogs_analysis
         @ grammar_heading @ concat (map (\<lambda>(pos, v). pos_line pos v) top_pos)
         @ punctuation_heading @ concat (map (\<lambda>(p, v). punct_line p v) top_puncts)
         @ clarity_line dogs_analysis
     \<and> length top_pos = 3
     \<and> stable_descending (pos_distribution dogs_analysis) (top_pos @ rest_pos)
     \<and> length top_puncts = 2
     \<and> stable_descending (punctuation_distribution dogs_analysis)
          (top_puncts @ rest_puncts))
   \<and> stable_descending (pos_distribution dogs_analysis)
        [(''NOUN'', 0.4), (''VERB'', 0.4), (''ADV'', 0.2)]
   \<and> take 5 (sorted_reverse snd (pos_distribution dogs_analysis))
       = [(''NOUN'', 0.4), (''VERB'', 0.4), (''ADV'', 0.2)]
   \<and> concat (map (\<lambda>(pos, v). pos_line pos v)
         [(''NOUN'', 0.4), (''VERB'', 0.4), (''ADV'', 0.2)])
       = ''  - NOUN: ~40.0%'' @ nl @ ''  - VERB: ~40.0%'' @ nl @ ''  - ADV: ~20.0%'' @ nl
   \<and> \<not> stable_descending (pos_distribution dogs_analysis)
        [(''VERB'', 0.4), (''NOUN'', 0.4), (''ADV'', 0.2)]"
proof -
  have a: "stable_descending (pos_distribution dogs_analysis)
        [(''NOUN'', 0.4), (''VERB'', 0.4), (''ADV'', 0.2)]"
    by (simp add: stable_descending_def dogs_analysis_def)
  have b: "\<not> stable_descending (pos_distribution dogs_analysis)
        [(''VERB'', 0.4), (''NOUN'', 0.4), (''ADV'', 0.2)]"
    by (simp add: stable_descending_def dogs_analysis_def)
  have c: "take 5 (sorted_reverse snd (pos_distribution dogs_analysis))
       = [(''NOUN'', 0.4), (''VERB'', 0.4), (''ADV'', 0.2)]"
    by (simp add: dogs_analysis_def sorted_reverse_def)
  have d: "concat (map (\<lambda>(pos, v). pos_line pos v)
         [(''NOUN'', 0.4), (''VERB'', 0.4), (''ADV'', 0.2)])
       = ''  - NOUN: ~40.0%'' @ nl @ ''  - VERB: ~40.0%'' @ nl @ ''  - ADV: ~20.0%'' @ nl"
    by code_simp
  have l: "min 5 (length (pos_distribution dogs_analysis)) = 3"
    "min 3 (length (punctuation_distribution dogs_analysis)) = 2"
    by (simp_all add: dogs_analysis_def)
  show ?thesis
    using formatter_lists_top_entries [of dogs_analysis "''Ernest Hemingway''"] a b c d
    unfolding l by blast
qed

end
